theory Spec2Isabelle
  imports Main
begin

section \<open>The command-line front-end \<^verbatim>\<open>enpassreadercli.py\<close>\<close>

text \<open>
  The script is one linear flow: \<^verbatim>\<open>get_arguments\<close>, \<^verbatim>\<open>setup_logging\<close>, opening the
  database, and the dispatch on the retrieval mode (the rest of \<^verbatim>\<open>main\<close>). Everything
  the script calls outside itself (the process environment, the command line, the file
  system, \<^verbatim>\<open>json\<close>, \<^verbatim>\<open>logging.config\<close>, \<^verbatim>\<open>EnpassDB\<close>, \<^verbatim>\<open>prompt\<close>) is a field of the
  record \<open>world\<close>: the model is a function of what these collaborators answer. A run
  yields the list of the effects it performed, in order, and the way \<^verbatim>\<open>main()\<close> ended.
\<close>

subsection \<open>Exceptions and the end of a run\<close>

text \<open>
  The exception classes the script names or can meet. \<open>JSONDecodeError\<close> is a subclass of
  \<open>ValueError\<close> in Python, \<open>FileNotFoundError\<close> is not; \<open>OtherError\<close> stands for any
  class that is neither a \<open>ValueError\<close>, nor the database error, nor a keyboard interrupt.
\<close>

datatype py_exception =
    ValueError
  | JSONDecodeError
  | FileNotFoundError
  | EnpassDatabaseError
  | KeyboardInterrupt
  | UnboundLocalError
  | OtherError string

fun is_ValueError :: "py_exception \<Rightarrow> bool" where
  "is_ValueError ValueError = True"
| "is_ValueError JSONDecodeError = True"
| "is_ValueError _ = False"

text \<open>
  \<^verbatim>\<open>main()\<close> never returns normally: it ends in \<^verbatim>\<open>raise SystemExit(code)\<close> or in an
  exception that nothing catches.
\<close>

datatype outcome = SystemExit int | Uncaught py_exception

subsection \<open>The database, as the external library presents it\<close>

record enpass_entry =
  title :: string
  password :: string

text \<open>
  \<^verbatim>\<open>get_entry\<close> answers an entry object or \<^verbatim>\<open>None\<close>; an entry object is truthy, so
  \<^verbatim>\<open>not entry\<close> holds exactly for \<open>None\<close>.
\<close>

record enpass_db =
  entries :: "enpass_entry list"
  get_entry :: "string \<Rightarrow> enpass_entry option"
  search_entries :: "string \<Rightarrow> enpass_entry list"

subsection \<open>Effects\<close>

datatype json =
    JNull
  | JBool bool
  | JNumber int
  | JString string
  | JArray "json list"
  | JObject "(string \<times> json) list"

datatype completer = EnpassCompleter | FuzzyCompleter completer

text \<open>
  One constructor for each effect of the script; a call that can fail carries what it
  answered. \<open>Print\<close> is a line on standard output, \<open>LoggerError\<close> is \<^verbatim>\<open>LOGGER.error\<close>.
\<close>

datatype event =
    Print string
  | LoggerError string
  | ReadFile string "py_exception + string"
  | DictConfig json "py_exception option"
  | ColoredlogsInstall string
  | OpenDatabase "string option" "string option" "string option" "py_exception option"
  | PromptCall string completer "py_exception + string"
  | GetEntry string "enpass_entry option"

subsection \<open>The command line and the parsed arguments\<close>

text \<open>
  The occurrences of the flags of the mutually exclusive group, in the order given.
\<close>

datatype mode_flag = Get string | Enumerate | Search | FuzzySearch

text \<open>
  The command line after tokenisation: for each option that stores a value, the value
  given with the flag (\<open>None\<close> when the flag is absent; the model covers command lines
  that give each of these flags at most once), and the flags of the group.
\<close>

record cmdline =
  opt_log_config :: "string option"
  opt_log_level :: "string option"
  opt_database_path :: "string option"
  opt_database_password :: "string option"
  opt_database_key_file :: "string option"
  opt_group :: "mode_flag list"

text \<open>
  The namespace \<^verbatim>\<open>args\<close>; field \<open>arg_x\<close> is \<^verbatim>\<open>args.x\<close> (\<open>arg_list\<close> is \<^verbatim>\<open>dest='list'\<close>).
  A field that Python may leave \<^verbatim>\<open>None\<close> is an option.
\<close>

record args =
  arg_logger_config :: string
  arg_log_level :: string
  arg_path :: "string option"
  arg_password :: "string option"
  arg_key_file :: "string option"
  arg_entry :: "string option"
  arg_list :: bool
  arg_search :: bool
  arg_fuzzy :: bool

text \<open>Python truthiness of a value that is \<^verbatim>\<open>None\<close> or a string.\<close>

fun truthy :: "string option \<Rightarrow> bool" where
  "truthy None = False"
| "truthy (Some s) = (s \<noteq> [])"

subsection \<open>\<^verbatim>\<open>DefaultVariable\<close>\<close>

text \<open>
  The attributes \<^verbatim>\<open>DefaultVariable.__init__\<close> hands to \<^verbatim>\<open>argparse.Action.__init__\<close>.
\<close>

record action =
  action_default :: "string option"
  action_required :: bool

text \<open>
  \<^verbatim>\<open>
  def __init__(self, variable, required=True, default=None, **kwargs):
      if not default and variable:
          if variable in os.environ:
              default = os.environ[variable]
      if required and default:
          required = False
  \<close>
\<close>

definition DefaultVariable_init ::
  "(string \<rightharpoonup> string) \<Rightarrow> string \<Rightarrow> bool \<Rightarrow> string option \<Rightarrow> action" where
  "DefaultVariable_init os_environ variable required dflt =
     (let dflt1 =
        (if \<not> truthy dflt \<and> variable \<noteq> [] then
           (case os_environ variable of Some v \<Rightarrow> Some v | None \<Rightarrow> dflt)
         else dflt);
          required1 = (if required \<and> truthy dflt1 then False else required)
      in \<lparr>action_default = dflt1, action_required = required1\<rparr>)"

text \<open>
  What \<^verbatim>\<open>parse_args\<close> leaves in the namespace for such an option: \<^verbatim>\<open>__call__\<close> stores
  the value of a flag that is present; an absent flag that is required is a parser
  error (\<^verbatim>\<open>parser.error\<close> exits with status 2); an absent flag that is not required
  leaves the default.
\<close>

definition DefaultVariable_call :: "string \<Rightarrow> string option" where
  "DefaultVariable_call values = Some values"

definition parse_DefaultVariable :: "action \<Rightarrow> string option \<Rightarrow> outcome + string option" where
  "parse_DefaultVariable a given =
     (case given of
        Some values \<Rightarrow> Inr (DefaultVariable_call values)
      | None \<Rightarrow> if action_required a then Inl (SystemExit 2) else Inr (action_default a))"

subsection \<open>\<^verbatim>\<open>get_arguments\<close>\<close>

text \<open>
  The flags \<^verbatim>\<open>-g\<close>, \<^verbatim>\<open>-e\<close>, \<^verbatim>\<open>-s\<close>, \<^verbatim>\<open>-f\<close> form a required mutually exclusive group:
  a flag whose action differs from one seen before is a parser error, as is a command
  line with none of them. \<^verbatim>\<open>-g\<close> stores its value in \<^verbatim>\<open>entry\<close>, the others store
  \<^verbatim>\<open>True\<close> in \<^verbatim>\<open>list\<close>, \<^verbatim>\<open>search\<close>, \<^verbatim>\<open>fuzzy\<close>.
\<close>

fun same_action :: "mode_flag \<Rightarrow> mode_flag \<Rightarrow> bool" where
  "same_action (Get _) (Get _) = True"
| "same_action Enumerate Enumerate = True"
| "same_action Search Search = True"
| "same_action FuzzySearch FuzzySearch = True"
| "same_action _ _ = False"

fun take_action :: "mode_flag \<Rightarrow> args \<Rightarrow> args" where
  "take_action (Get t) a = a\<lparr>arg_entry := Some t\<rparr>"
| "take_action Enumerate a = a\<lparr>arg_list := True\<rparr>"
| "take_action Search a = a\<lparr>arg_search := True\<rparr>"
| "take_action FuzzySearch a = a\<lparr>arg_fuzzy := True\<rparr>"

fun parse_group :: "mode_flag list \<Rightarrow> mode_flag list \<Rightarrow> args \<Rightarrow> outcome + args" where
  "parse_group [] seen a = (if seen = [] then Inl (SystemExit 2) else Inr a)"
| "parse_group (f # fs) seen a =
     (if list_ex (\<lambda>g. \<not> same_action f g) seen then Inl (SystemExit 2)
      else parse_group fs (f # seen) (take_action f a))"

definition log_level_choices :: "string list" where
  "log_level_choices = [''debug'', ''info'', ''warning'', ''error'', ''critical'']"

text \<open>\<^verbatim>\<open>--log-level\<close> defaults to \<^verbatim>\<open>'info'\<close> and accepts only its choices.\<close>

definition parse_log_level :: "string option \<Rightarrow> outcome + string" where
  "parse_log_level given =
     (case given of
        Some l \<Rightarrow> if l \<in> set log_level_choices then Inr l else Inl (SystemExit 2)
      | None \<Rightarrow> Inr ''info'')"

text \<open>
  The three database options are built by \<^verbatim>\<open>DefaultVariable\<close> from the environment:
  path and password with \<^verbatim>\<open>required=True\<close> and no default, the key file with
  \<^verbatim>\<open>required=False, default=''\<close>. \<^verbatim>\<open>--log-config\<close> defaults to \<^verbatim>\<open>''\<close>. Every parser
  error ends the run with status 2.
\<close>

definition get_arguments :: "(string \<rightharpoonup> string) \<Rightarrow> cmdline \<Rightarrow> outcome + args" where
  "get_arguments os_environ c =
     (case parse_log_level (opt_log_level c) of
        Inl e \<Rightarrow> Inl e
      | Inr log_level \<Rightarrow>
     (case parse_DefaultVariable
             (DefaultVariable_init os_environ ''ENPASS_DB_PATH'' True None)
             (opt_database_path c) of
        Inl e \<Rightarrow> Inl e
      | Inr path_value \<Rightarrow>
     (case parse_DefaultVariable
             (DefaultVariable_init os_environ ''ENPASS_DB_PASSWORD'' True None)
             (opt_database_password c) of
        Inl e \<Rightarrow> Inl e
      | Inr password_value \<Rightarrow>
     (case parse_DefaultVariable
             (DefaultVariable_init os_environ ''ENPASS_DB_KEY_FILE'' False (Some []))
             (opt_database_key_file c) of
        Inl e \<Rightarrow> Inl e
      | Inr key_file_value \<Rightarrow>
          parse_group (opt_group c) []
            \<lparr>arg_logger_config = (case opt_log_config c of Some v \<Rightarrow> v | None \<Rightarrow> []),
             arg_log_level = log_level,
             arg_path = path_value,
             arg_password = password_value,
             arg_key_file = key_file_value,
             arg_entry = None,
             arg_list = False,
             arg_search = False,
             arg_fuzzy = False\<rparr>))))"

subsection \<open>The collaborators\<close>

text \<open>
  \<open>read_file\<close> is \<^verbatim>\<open>open(config_file)\<close> followed by \<^verbatim>\<open>conf_file.read()\<close>; \<open>EnpassDB\<close> is
  the constructor of the external library; \<open>prompt\<close> is what the user does at the
  interactive prompt, given its message and completer.
\<close>

record world =
  environ :: "string \<rightharpoonup> string"
  argv :: cmdline
  read_file :: "string \<Rightarrow> py_exception + string"
  json_loads :: "string \<Rightarrow> py_exception + json"
  dictConfig :: "json \<Rightarrow> py_exception option"
  EnpassDB :: "string option \<Rightarrow> string option \<Rightarrow> string option \<Rightarrow> py_exception + enpass_db"
  prompt :: "string \<Rightarrow> completer \<Rightarrow> py_exception + string"

subsection \<open>\<^verbatim>\<open>setup_logging\<close>\<close>

text \<open>
  \<^verbatim>\<open>level.upper()\<close>, on the ASCII letters (the levels the parser accepts are ASCII).
\<close>

definition upper_char :: "char \<Rightarrow> char" where
  "upper_char c =
     (case map_of (zip ''abcdefghijklmnopqrstuvwxyz'' ''ABCDEFGHIJKLMNOPQRSTUVWXYZ'') c of
        Some u \<Rightarrow> u
      | None \<Rightarrow> c)"

definition upper :: "string \<Rightarrow> string" where
  "upper s = map upper_char s"

definition invalid_json_message :: "string \<Rightarrow> string" where
  "invalid_json_message config_file =
     ''File \"'' @ config_file @ ''\" is not valid json, cannot continue.''"

text \<open>
  The handler \<^verbatim>\<open>except ValueError\<close> around the three steps of the \<^verbatim>\<open>try\<close> block: a
  \<open>ValueError\<close> (or subclass) prints the message and exits with 1, any other exception
  propagates. The first argument is what the block did before the exception.
\<close>

definition except_ValueError ::
  "event list \<Rightarrow> string \<Rightarrow> py_exception \<Rightarrow> event list \<times> outcome option" where
  "except_ValueError effects config_file exn =
     (if is_ValueError exn then
        (effects @ [Print (invalid_json_message config_file)], Some (SystemExit 1))
      else (effects, Some (Uncaught exn)))"

text \<open>The result \<open>None\<close> is the normal return of \<^verbatim>\<open>setup_logging\<close>.\<close>

definition setup_logging :: "world \<Rightarrow> string \<Rightarrow> string \<Rightarrow> event list \<times> outcome option" where
  "setup_logging w level config_file =
     (if config_file \<noteq> [] then
        (case read_file w config_file of
           Inl exn \<Rightarrow> except_ValueError [ReadFile config_file (Inl exn)] config_file exn
         | Inr contents \<Rightarrow>
        (case json_loads w contents of
           Inl exn \<Rightarrow> except_ValueError [ReadFile config_file (Inr contents)] config_file exn
         | Inr configuration \<Rightarrow>
        (case dictConfig w configuration of
           Some exn \<Rightarrow>
             except_ValueError
               [ReadFile config_file (Inr contents), DictConfig configuration (Some exn)]
               config_file exn
         | None \<Rightarrow>
             ([ReadFile config_file (Inr contents), DictConfig configuration None], None))))
      else ([ColoredlogsInstall (upper level)], None))"

subsection \<open>\<^verbatim>\<open>main\<close>\<close>

definition database_error_message :: string where
  "database_error_message =
     ''Could not read or decrypt the database. '' @
     ''Please validate that the path provided is a valid enpass database, '' @
     ''and that the provided password and optionally key file are correct.''"

definition not_found_message :: "string \<Rightarrow> string" where
  "not_found_message entry_title =
     ''No password entry found with title of \"'' @ entry_title @ ''\".''"

text \<open>
  \<^verbatim>\<open>
  for entry in enpass.entries:
      print(f'{entry.title}: {entry.password}')
      raise SystemExit(0)
  \<close>
  The \<^verbatim>\<open>raise\<close> is in the body of the loop: the first iteration prints and ends the run.
  \<open>None\<close> is the loop running to its end, which happens for no entries only.
\<close>

fun enumerate_loop :: "enpass_entry list \<Rightarrow> event list \<times> outcome option" where
  "enumerate_loop [] = ([], None)"
| "enumerate_loop (entry # rest) =
     ([Print (title entry @ '': '' @ password entry)], Some (SystemExit 0))"

text \<open>
  The assignment of the local \<^verbatim>\<open>entry_title\<close>. \<open>Inr None\<close> is the variable left
  unassigned: neither branch of the \<^verbatim>\<open>if\<close>/\<^verbatim>\<open>elif\<close> ran.
\<close>

definition prompt_completer :: "args \<Rightarrow> completer" where
  "prompt_completer a =
     (if arg_search a then EnpassCompleter else FuzzyCompleter EnpassCompleter)"

definition assign_entry_title ::
  "world \<Rightarrow> args \<Rightarrow> event list \<times> (outcome + string option)" where
  "assign_entry_title w a =
     (if truthy (arg_entry a) then ([], Inr (arg_entry a))
      else if arg_search a \<or> arg_fuzzy a then
        (let c = prompt_completer a;
             answer = prompt w ''Title :'' c
         in (case answer of
               Inr t \<Rightarrow> ([PromptCall ''Title :'' c answer], Inr (Some t))
             | Inl exn \<Rightarrow>
                 ([PromptCall ''Title :'' c answer],
                  Inl (if exn = KeyboardInterrupt then SystemExit 0 else Uncaught exn))))
      else ([], Inr None))"

text \<open>
  \<^verbatim>\<open>
  entry = enpass.get_entry(entry_title)
  if not entry:
      LOGGER.error(f'No password entry found with title of "{entry_title}".')
      raise SystemExit(1)
  print(entry.password)
  raise SystemExit(0)
  \<close>
  Reading the unassigned local raises \<open>UnboundLocalError\<close> before any call.
\<close>

definition lookup_entry :: "enpass_db \<Rightarrow> string option \<Rightarrow> event list \<times> outcome" where
  "lookup_entry enpass entry_title =
     (case entry_title of
        None \<Rightarrow> ([], Uncaught UnboundLocalError)
      | Some t \<Rightarrow>
          (case get_entry enpass t of
             None \<Rightarrow> ([GetEntry t None, LoggerError (not_found_message t)], SystemExit 1)
           | Some entry \<Rightarrow> ([GetEntry t (Some entry), Print (password entry)], SystemExit 0)))"

text \<open>Lines 203 to 220 of \<^verbatim>\<open>main\<close>: what happens once the database is open.\<close>

definition retrieve :: "world \<Rightarrow> args \<Rightarrow> enpass_db \<Rightarrow> event list \<times> outcome" where
  "retrieve w a enpass =
     (case (if arg_list a then enumerate_loop (entries enpass) else ([], None)) of
        (tr, Some out) \<Rightarrow> (tr, out)
      | (tr, None) \<Rightarrow>
          (case assign_entry_title w a of
             (tr1, Inl out) \<Rightarrow> (tr @ tr1, out)
           | (tr1, Inr entry_title) \<Rightarrow>
               (case lookup_entry enpass entry_title of
                  (tr2, out) \<Rightarrow> (tr @ tr1 @ tr2, out))))"

definition main :: "world \<Rightarrow> event list \<times> outcome" where
  "main w =
     (case get_arguments (environ w) (argv w) of
        Inl out \<Rightarrow> ([], out)
      | Inr a \<Rightarrow>
          (case setup_logging w (arg_log_level a) (arg_logger_config a) of
             (tr, Some out) \<Rightarrow> (tr, out)
           | (tr, None) \<Rightarrow>
               (case EnpassDB w (arg_path a) (arg_password a) (arg_key_file a) of
                  Inl exn \<Rightarrow>
                    (let opened =
                       OpenDatabase (arg_path a) (arg_password a) (arg_key_file a) (Some exn)
                     in if exn = EnpassDatabaseError then
                          (tr @ [opened, LoggerError database_error_message], SystemExit 1)
                        else (tr @ [opened], Uncaught exn))
                | Inr enpass \<Rightarrow>
                    (case retrieve w a enpass of
                       (tr1, out) \<Rightarrow>
                         (tr @ [OpenDatabase (arg_path a) (arg_password a) (arg_key_file a) None]
                             @ tr1, out)))))"

text \<open>
  \<^verbatim>\<open>EnpassCompleter.get_completions\<close>: one completion for each entry the library finds for
  the typed text, replacing the whole of that text.
\<close>

definition get_completions :: "enpass_db \<Rightarrow> string \<Rightarrow> (string \<times> int) list" where
  "get_completions enpass document_text =
     map (\<lambda>match. (match, - int (length document_text)))
         (map title (search_entries enpass document_text))"

section \<open>Vocabulary of the statements\<close>

text \<open>The lines a run wrote to standard output.\<close>

fun stdout :: "event list \<Rightarrow> string list" where
  "stdout [] = []"
| "stdout (Print s # tr) = s # stdout tr"
| "stdout (_ # tr) = stdout tr"

text \<open>
  The effects by which a retrieval mode shows: a printed line, the interactive prompt, a
  lookup in the database.
\<close>

fun retrieval_event :: "event \<Rightarrow> bool" where
  "retrieval_event (Print _) = True"
| "retrieval_event (PromptCall _ _ _) = True"
| "retrieval_event (GetEntry _ _) = True"
| "retrieval_event _ = False"

text \<open>The effects of a \<^verbatim>\<open>setup_logging\<close> that returns, and of any \<^verbatim>\<open>setup_logging\<close>.\<close>

fun logging_event :: "event \<Rightarrow> bool" where
  "logging_event (ReadFile _ _) = True"
| "logging_event (DictConfig _ _) = True"
| "logging_event (ColoredlogsInstall _) = True"
| "logging_event _ = False"

fun setup_event :: "event \<Rightarrow> bool" where
  "setup_event (Print _) = True"
| "setup_event e = logging_event e"

text \<open>A call of the constructor of the database.\<close>

fun is_OpenDatabase :: "event \<Rightarrow> bool" where
  "is_OpenDatabase (OpenDatabase _ _ _ _) = True"
| "is_OpenDatabase _ = False"


text \<open>
  The invariant of \<open>parse_group\<close>: the flags seen so far share one action, and the four
  destinations of the group hold what these flags stored.
\<close>

fun is_Get :: "mode_flag \<Rightarrow> bool" where
  "is_Get (Get _) = True"
| "is_Get _ = False"

definition group_inv :: "mode_flag list \<Rightarrow> args \<Rightarrow> bool" where
  "group_inv seen a =
     ((\<forall>g\<in>set seen. \<forall>h\<in>set seen. same_action g h) \<and>
      (arg_entry a \<noteq> None) = (\<exists>g\<in>set seen. is_Get g) \<and>
      arg_list a = (Enumerate \<in> set seen) \<and>
      arg_search a = (Search \<in> set seen) \<and>
      arg_fuzzy a = (FuzzySearch \<in> set seen))"

definition unset_group :: "args \<Rightarrow> bool" where
  "unset_group a =
     (arg_entry a = None \<and> \<not> arg_list a \<and> \<not> arg_search a \<and> \<not> arg_fuzzy a)"

section \<open>A concrete world\<close>

text \<open>
  A database of two entries behind the master password \<^verbatim>\<open>master\<close>, a log configuration
  file \<^verbatim>\<open>bad.json\<close> that holds \<^verbatim>\<open>{\<close> and no other file, an empty environment, and a user
  who interrupts every prompt. The command line gives path and password, and the flags
  of the group that are the argument.
\<close>

definition vault_entries :: "enpass_entry list" where
  "vault_entries =
     [\<lparr>title = ''mail'', password = ''hunter2''\<rparr>,
      \<lparr>title = ''bank'', password = ''s3cret''\<rparr>]"

definition vault :: enpass_db where
  "vault =
     \<lparr>entries = vault_entries,
      get_entry = (\<lambda>name. find (\<lambda>e. title e = name) vault_entries),
      search_entries =
        (\<lambda>name. filter (\<lambda>e. take (length name) (title e) = name) vault_entries)\<rparr>"

definition vault_world :: "mode_flag list \<Rightarrow> world" where
  "vault_world flags =
     \<lparr>environ = Map.empty,
      argv = \<lparr>opt_log_config = None, opt_log_level = None,
              opt_database_path = Some ''/vault'', opt_database_password = Some ''master'',
              opt_database_key_file = None, opt_group = flags\<rparr>,
      read_file = (\<lambda>p. if p = ''bad.json'' then Inr ''{'' else Inl FileNotFoundError),
      json_loads = (\<lambda>s. if s = ''{'' then Inl JSONDecodeError else Inr (JObject [])),
      dictConfig = (\<lambda>c. None),
      EnpassDB =
        (\<lambda>p pw k. if pw = Some ''master'' then Inr vault else Inl EnpassDatabaseError),
      prompt = (\<lambda>m c. Inl KeyboardInterrupt)\<rparr>"

text \<open>The same world with a database that holds no entry.\<close>

definition empty_vault_world :: "mode_flag list \<Rightarrow> world" where
  "empty_vault_world flags =
     (vault_world flags)\<lparr>EnpassDB := (\<lambda>p pw k. Inr (vault\<lparr>entries := []\<rparr>))\<rparr>"

text \<open>
  The same world with a database that also holds an entry saved without a title, which
  the lookup of the empty title answers.
\<close>

definition untitled_vault :: enpass_db where
  "untitled_vault =
     \<lparr>entries = \<lparr>title = [], password = ''blank''\<rparr> # vault_entries,
      get_entry =
        (\<lambda>name. find (\<lambda>e. title e = name)
                   (\<lparr>title = [], password = ''blank''\<rparr> # vault_entries)),
      search_entries =
        (\<lambda>name. filter (\<lambda>e. take (length name) (title e) = name)
                   (\<lparr>title = [], password = ''blank''\<rparr> # vault_entries))\<rparr>"

definition untitled_vault_world :: "mode_flag list \<Rightarrow> world" where
  "untitled_vault_world flags =
     (vault_world flags)\<lparr>EnpassDB := (\<lambda>p pw k. Inr untitled_vault)\<rparr>"


definition with_log_config :: "string \<Rightarrow> world \<Rightarrow> world" where
  "with_log_config f w = w\<lparr>argv := (argv w)\<lparr>opt_log_config := Some f\<rparr>\<rparr>"

definition with_log_level :: "string \<Rightarrow> world \<Rightarrow> world" where
  "with_log_level l w = w\<lparr>argv := (argv w)\<lparr>opt_log_level := Some l\<rparr>\<rparr>"

text \<open>What \<^verbatim>\<open>get_arguments\<close> answers in that world.\<close>

definition vault_args :: "string option \<Rightarrow> bool \<Rightarrow> bool \<Rightarrow> bool \<Rightarrow> args" where
  "vault_args e l s f =
     \<lparr>arg_logger_config = [], arg_log_level = ''info'',
      arg_path = Some ''/vault'', arg_password = Some ''master'', arg_key_file = Some [],
      arg_entry = e, arg_list = l, arg_search = s, arg_fuzzy = f\<rparr>"

text \<open>
  An environment that holds path and password, and a command line that gives neither.
\<close>

definition vault_environ :: "string \<rightharpoonup> string" where
  "vault_environ = [''ENPASS_DB_PATH'' \<mapsto> ''/vault'', ''ENPASS_DB_PASSWORD'' \<mapsto> ''master'']"

definition bare_cmdline :: cmdline where
  "bare_cmdline =
     \<lparr>opt_log_config = None, opt_log_level = None,
      opt_database_path = None, opt_database_password = None,
      opt_database_key_file = None, opt_group = [Enumerate]\<rparr>"

section \<open>Auxiliary facts\<close>

subsection \<open>The mutually exclusive group\<close>

lemma same_action_sym: "same_action f g = same_action g f"
  by (cases f; cases g) simp_all

lemma same_action_refl: "same_action f f"
  by (cases f) simp_all

lemma group_inv_step:
  assumes "group_inv seen a" and "\<not> list_ex (\<lambda>g. \<not> same_action f g) seen"
  shows "group_inv (f # seen) (take_action f a)"
  using assms
  by (cases f) (auto simp: group_inv_def list_ex_iff same_action_sym same_action_refl)



lemma parse_group_inv:
  "parse_group fs seen a = Inr a' \<Longrightarrow> group_inv seen a \<Longrightarrow>
     \<exists>seen'. seen' \<noteq> [] \<and> group_inv seen' a'"
proof (induction fs seen a rule: parse_group.induct)
  case (1 seen a)
  then show ?case by (auto split: if_splits)
next
  case (2 f fs seen a)
  show ?case
  proof (cases "list_ex (\<lambda>g. \<not> same_action f g) seen")
    case True
    with 2(2) show ?thesis by simp
  next
    case False
    with 2(2) have "parse_group fs (f # seen) (take_action f a) = Inr a'" by simp
    moreover from False 2(3) have "group_inv (f # seen) (take_action f a)"
      by (rule_tac group_inv_step)
    ultimately show ?thesis using 2(1) False by blast
  qed
qed

lemma parse_group_fields:
  "parse_group fs seen a = Inr a' \<Longrightarrow>
     arg_logger_config a' = arg_logger_config a \<and> arg_log_level a' = arg_log_level a \<and>
     arg_path a' = arg_path a \<and> arg_password a' = arg_password a \<and>
     arg_key_file a' = arg_key_file a"
proof (induction fs seen a rule: parse_group.induct)
  case (1 seen a)
  then show ?case by (simp split: if_splits)
next
  case (2 f fs seen a)
  show ?case
  proof (cases "list_ex (\<lambda>g. \<not> same_action f g) seen")
    case True
    with 2(2) show ?thesis by simp
  next
    case False
    with 2(2) have "parse_group fs (f # seen) (take_action f a) = Inr a'" by simp
    with 2(1) False have "arg_logger_config a' = arg_logger_config (take_action f a) \<and> arg_log_level a' = arg_log_level (take_action f a) \<and>
     arg_path a' = arg_path (take_action f a) \<and> arg_password a' = arg_password (take_action f a) \<and>
     arg_key_file a' = arg_key_file (take_action f a)" by blast
    then show ?thesis by (cases f) simp_all
  qed
qed


lemma same_action_Get: "same_action g h \<Longrightarrow> is_Get g = is_Get h"
  by (cases g; cases h) simp_all

lemma group_inv_exclusive:
  assumes "group_inv seen a" and "seen \<noteq> []"
  shows "(arg_entry a \<noteq> None \<and> \<not> arg_list a \<and> \<not> arg_search a \<and> \<not> arg_fuzzy a) \<or>
         (arg_entry a = None \<and> arg_list a \<and> \<not> arg_search a \<and> \<not> arg_fuzzy a) \<or>
         (arg_entry a = None \<and> \<not> arg_list a \<and> arg_search a \<and> \<not> arg_fuzzy a) \<or>
         (arg_entry a = None \<and> \<not> arg_list a \<and> \<not> arg_search a \<and> arg_fuzzy a)"
proof -
  from assms(2) obtain g where g: "g \<in> set seen" by (cases seen) auto
  with assms(1) have same: "\<And>h. h \<in> set seen \<Longrightarrow> same_action g h"
    by (simp add: group_inv_def)
  have gets: "(\<exists>h\<in>set seen. is_Get h) = is_Get g"
    using g same same_action_Get by blast
  have mem: "\<And>h. \<not> same_action g h \<Longrightarrow> h \<notin> set seen"
    using same by blast
  from assms(1) have fields:
    "(arg_entry a \<noteq> None) = is_Get g" "arg_list a = (Enumerate \<in> set seen)"
    "arg_search a = (Search \<in> set seen)" "arg_fuzzy a = (FuzzySearch \<in> set seen)"
    using gets by (simp_all add: group_inv_def)
  show ?thesis
  proof (cases g)
    case (Get t)
    then have "Enumerate \<notin> set seen" "Search \<notin> set seen" "FuzzySearch \<notin> set seen"
      by (simp_all add: mem)
    with fields Get show ?thesis by simp
  next
    case Enumerate
    then have "Search \<notin> set seen" "FuzzySearch \<notin> set seen"
      by (simp_all add: mem)
    with fields Enumerate g show ?thesis by simp
  next
    case Search
    then have "Enumerate \<notin> set seen" "FuzzySearch \<notin> set seen"
      by (simp_all add: mem)
    with fields Search g show ?thesis by simp
  next
    case FuzzySearch
    then have "Enumerate \<notin> set seen" "Search \<notin> set seen"
      by (simp_all add: mem)
    with fields FuzzySearch g show ?thesis by simp
  qed
qed

lemma parse_group_exclusive:
  assumes "parse_group fs [] a = Inr a'" and "unset_group a"
  shows "(arg_entry a' \<noteq> None \<and> \<not> arg_list a' \<and> \<not> arg_search a' \<and> \<not> arg_fuzzy a') \<or>
         (arg_entry a' = None \<and> arg_list a' \<and> \<not> arg_search a' \<and> \<not> arg_fuzzy a') \<or>
         (arg_entry a' = None \<and> \<not> arg_list a' \<and> arg_search a' \<and> \<not> arg_fuzzy a') \<or>
         (arg_entry a' = None \<and> \<not> arg_list a' \<and> \<not> arg_search a' \<and> arg_fuzzy a')"
proof -
  from assms(2) have "group_inv [] a" by (simp add: group_inv_def unset_group_def)
  with assms(1) obtain seen' where "seen' \<noteq> []" "group_inv seen' a'"
    using parse_group_inv by blast
  then show ?thesis by (rule_tac group_inv_exclusive)
qed

lemma get_arguments_exclusive:
  assumes "get_arguments env c = Inr a"
  shows "(arg_entry a \<noteq> None \<and> \<not> arg_list a \<and> \<not> arg_search a \<and> \<not> arg_fuzzy a) \<or>
         (arg_entry a = None \<and> arg_list a \<and> \<not> arg_search a \<and> \<not> arg_fuzzy a) \<or>
         (arg_entry a = None \<and> \<not> arg_list a \<and> arg_search a \<and> \<not> arg_fuzzy a) \<or>
         (arg_entry a = None \<and> \<not> arg_list a \<and> \<not> arg_search a \<and> arg_fuzzy a)"
proof -
  from assms obtain a0 where "parse_group (opt_group c) [] a0 = Inr a" "unset_group a0"
    by (auto simp: get_arguments_def unset_group_def split: sum.splits)
  then show ?thesis by (rule parse_group_exclusive)
qed

subsection \<open>Which effects each part performs\<close>

lemma setup_logging_returns:
  "setup_logging w level config_file = (tr, None) \<Longrightarrow> list_all logging_event tr"
  by (auto simp: setup_logging_def except_ValueError_def split: if_splits sum.splits option.splits)

lemma setup_logging_events:
  "setup_logging w level config_file = (tr, r) \<Longrightarrow> list_all setup_event tr"
  by (auto simp: setup_logging_def except_ValueError_def split: if_splits sum.splits option.splits)





lemma logging_event_quiet:
  "list_all logging_event tr \<Longrightarrow> stdout tr = [] \<and> \<not> list_ex retrieval_event tr"
proof (induction tr)
  case Nil
  then show ?case by simp
next
  case (Cons e tr)
  then show ?case by (cases e) simp_all
qed

lemma logging_event_not_mem:
  assumes "list_all logging_event tr"
  shows "OpenDatabase p pw k r \<notin> set tr" "GetEntry t x \<notin> set tr" "PromptCall m c y \<notin> set tr"
  using assms by (auto simp: list_all_iff)

lemma setup_event_not_mem:
  assumes "list_all setup_event tr"
  shows "OpenDatabase p pw k r \<notin> set tr" "GetEntry t x \<notin> set tr" "PromptCall m c y \<notin> set tr"
  using assms by (auto simp: list_all_iff)


lemma stdout_append: "stdout (xs @ ys) = stdout xs @ stdout ys"
  by (induction xs rule: stdout.induct) simp_all

subsection \<open>The ways a run can go\<close>

lemma main_cases:
  assumes "main w = (tr, out)"
  obtains
    (parse_error) "get_arguments (environ w) (argv w) = Inl out" "tr = []"
  | (logging_failed) a where
      "get_arguments (environ w) (argv w) = Inr a"
      "setup_logging w (arg_log_level a) (arg_logger_config a) = (tr, Some out)"
  | (open_failed) a tr0 exn where
      "get_arguments (environ w) (argv w) = Inr a"
      "setup_logging w (arg_log_level a) (arg_logger_config a) = (tr0, None)"
      "EnpassDB w (arg_path a) (arg_password a) (arg_key_file a) = Inl exn"
      "exn \<noteq> EnpassDatabaseError"
      "tr = tr0 @ [OpenDatabase (arg_path a) (arg_password a) (arg_key_file a) (Some exn)]"
      "out = Uncaught exn"
  | (database_error) a tr0 where
      "get_arguments (environ w) (argv w) = Inr a"
      "setup_logging w (arg_log_level a) (arg_logger_config a) = (tr0, None)"
      "EnpassDB w (arg_path a) (arg_password a) (arg_key_file a) = Inl EnpassDatabaseError"
      "tr = tr0 @ [OpenDatabase (arg_path a) (arg_password a) (arg_key_file a)
                     (Some EnpassDatabaseError),
                   LoggerError database_error_message]"
      "out = SystemExit 1"
  | (opened) a tr0 enpass tr1 where
      "get_arguments (environ w) (argv w) = Inr a"
      "setup_logging w (arg_log_level a) (arg_logger_config a) = (tr0, None)"
      "EnpassDB w (arg_path a) (arg_password a) (arg_key_file a) = Inr enpass"
      "retrieve w a enpass = (tr1, out)"
      "tr = tr0 @ [OpenDatabase (arg_path a) (arg_password a) (arg_key_file a) None] @ tr1"
proof (cases "get_arguments (environ w) (argv w)")
  case (Inl e)
  with assms parse_error show ?thesis by (simp add: main_def)
next
  case (Inr a)
  note a = this
  obtain tr0 r where s: "setup_logging w (arg_log_level a) (arg_logger_config a) = (tr0, r)"
    by (cases "setup_logging w (arg_log_level a) (arg_logger_config a)")
  show ?thesis
  proof (cases r)
    case (Some e)
    with assms a s logging_failed show ?thesis by (simp add: main_def)
  next
    case None
    note r = this
    show ?thesis
    proof (cases "EnpassDB w (arg_path a) (arg_password a) (arg_key_file a)")
      case (Inl exn)
      show ?thesis
      proof (cases "exn = EnpassDatabaseError")
        case True
        with assms a s r Inl database_error[of a tr0] show ?thesis by (simp add: main_def)
      next
        case False
        with assms a s r Inl open_failed[of a tr0 exn] show ?thesis by (simp add: main_def)
      qed
    next
      case (Inr enpass)
      obtain tr1 out1 where "retrieve w a enpass = (tr1, out1)"
        by (cases "retrieve w a enpass")
      with assms a s r Inr opened[of a tr0 enpass tr1] show ?thesis by (simp add: main_def)
    qed
  qed
qed

lemma retrieve_cases:
  assumes "retrieve w a enpass = (tr, out)"
  obtains
    (enumerated) entry rest where
      "arg_list a" "entries enpass = entry # rest"
      "tr = [Print (title entry @ '': '' @ password entry)]" "out = SystemExit 0"
  | (unassigned)
      "arg_list a \<longrightarrow> entries enpass = []"
      "\<not> truthy (arg_entry a)" "\<not> arg_search a" "\<not> arg_fuzzy a"
      "tr = []" "out = Uncaught UnboundLocalError"
  | (prompt_raised) exn where
      "arg_list a \<longrightarrow> entries enpass = []"
      "\<not> truthy (arg_entry a)" "arg_search a \<or> arg_fuzzy a"
      "prompt w ''Title :'' (prompt_completer a) = Inl exn"
      "tr = [PromptCall ''Title :'' (prompt_completer a) (Inl exn)]"
      "out = (if exn = KeyboardInterrupt then SystemExit 0 else Uncaught exn)"
  | (given_title) t where
      "arg_list a \<longrightarrow> entries enpass = []"
      "arg_entry a = Some t" "t \<noteq> []"
      "(tr, out) = lookup_entry enpass (Some t)"
  | (prompted_title) t where
      "arg_list a \<longrightarrow> entries enpass = []"
      "\<not> truthy (arg_entry a)" "arg_search a \<or> arg_fuzzy a"
      "prompt w ''Title :'' (prompt_completer a) = Inr t"
      "(tr, out) =
         (PromptCall ''Title :'' (prompt_completer a) (Inr t) # fst (lookup_entry enpass (Some t)),
          snd (lookup_entry enpass (Some t)))"
proof (cases "arg_list a \<and> entries enpass \<noteq> []")
  case True
  then obtain entry rest where "entries enpass = entry # rest"
    by (cases "entries enpass") auto
  with True assms enumerated show ?thesis by (simp add: retrieve_def)
next
  case False
  then have skip: "(if arg_list a then enumerate_loop (entries enpass) else ([], None)) = ([], None)"
    by auto
  from False have e: "arg_list a \<longrightarrow> entries enpass = []" by simp
  have r: "(tr, out) = (case assign_entry_title w a of
             (tr1, Inl out) \<Rightarrow> (tr1, out)
           | (tr1, Inr entry_title) \<Rightarrow>
               (case lookup_entry enpass entry_title of
                  (tr2, out) \<Rightarrow> (tr1 @ tr2, out)))"
    using assms unfolding retrieve_def skip by simp
  show ?thesis
  proof (cases "truthy (arg_entry a)")
    case True
    then obtain t where t: "arg_entry a = Some t" "t \<noteq> []"
      by (cases "arg_entry a") auto
    with r have "(tr, out) = lookup_entry enpass (Some t)"
      by (simp add: assign_entry_title_def split: prod.splits)
    with e t given_title show ?thesis by blast
  next
    case False
    note nt = this
    show ?thesis
    proof (cases "arg_search a \<or> arg_fuzzy a")
      case False
      with nt r have "tr = []" "out = Uncaught UnboundLocalError"
        by (simp_all add: assign_entry_title_def lookup_entry_def)
      with e nt False unassigned show ?thesis by blast
    next
      case True
      note sf = this
      show ?thesis
      proof (cases "prompt w ''Title :'' (prompt_completer a)")
        case (Inl exn)
        with nt sf r have "tr = [PromptCall ''Title :'' (prompt_completer a) (Inl exn)]"
          "out = (if exn = KeyboardInterrupt then SystemExit 0 else Uncaught exn)"
          by (simp_all add: assign_entry_title_def Let_def)
        with e nt sf Inl prompt_raised show ?thesis by blast
      next
        case (Inr t)
        with nt sf r have "(tr, out) =
         (PromptCall ''Title :'' (prompt_completer a) (Inr t) # fst (lookup_entry enpass (Some t)),
          snd (lookup_entry enpass (Some t)))"
          by (simp add: assign_entry_title_def Let_def split: prod.splits)
        with e nt sf Inr prompted_title show ?thesis by blast
      qed
    qed
  qed
qed

lemma enumerate_first_entry_only:
  assumes "arg_list a" and "entries enpass = entry # rest"
  shows "retrieve w a enpass =
           ([Print (title entry @ '': '' @ password entry)], SystemExit 0)"
  using assms by (simp add: retrieve_def)

lemma main_enumerate_first_entry_only:
  assumes "get_arguments (environ w) (argv w) = Inr a" and "arg_list a"
    and "setup_logging w (arg_log_level a) (arg_logger_config a) = (tr0, None)"
    and "EnpassDB w (arg_path a) (arg_password a) (arg_key_file a) = Inr enpass"
    and "entries enpass = entry # rest"
  shows "main w =
           (tr0 @ [OpenDatabase (arg_path a) (arg_password a) (arg_key_file a) None,
                   Print (title entry @ '': '' @ password entry)],
            SystemExit 0)"
  using assms by (simp add: main_def enumerate_first_entry_only)

lemma get_arguments_given_title:
  assumes "get_arguments env c = Inr a" and "arg_entry a = Some t"
  shows "\<not> arg_list a" "\<not> arg_search a" "\<not> arg_fuzzy a"
  using get_arguments_exclusive[OF assms(1)] assms(2) by auto

lemma get_arguments_enumerate:
  assumes "get_arguments env c = Inr a" and "arg_list a"
  shows "arg_entry a = None" "\<not> arg_search a" "\<not> arg_fuzzy a"
  using get_arguments_exclusive[OF assms(1)] assms(2) by auto

text \<open>
  The runs that the statements below speak of, from what the collaborators answer.
\<close>

lemma main_database_error:
  assumes "get_arguments (environ w) (argv w) = Inr a"
    and "setup_logging w (arg_log_level a) (arg_logger_config a) = (tr0, None)"
    and "EnpassDB w (arg_path a) (arg_password a) (arg_key_file a) = Inl EnpassDatabaseError"
  shows "main w =
           (tr0 @ [OpenDatabase (arg_path a) (arg_password a) (arg_key_file a)
                     (Some EnpassDatabaseError),
                   LoggerError database_error_message],
            SystemExit 1)"
  using assms by (simp add: main_def)

lemma main_given_title:
  assumes "get_arguments (environ w) (argv w) = Inr a"
    and "arg_entry a = Some t" and "t \<noteq> []"
    and "setup_logging w (arg_log_level a) (arg_logger_config a) = (tr0, None)"
    and "EnpassDB w (arg_path a) (arg_password a) (arg_key_file a) = Inr enpass"
  shows "main w =
           (tr0 @ [OpenDatabase (arg_path a) (arg_password a) (arg_key_file a) None,
                   GetEntry t (get_entry enpass t),
                   (case get_entry enpass t of
                      None \<Rightarrow>
                        LoggerError (''No password entry found with title of \"'' @ t @ ''\".'')
                    | Some entry \<Rightarrow> Print (password entry))],
            (case get_entry enpass t of None \<Rightarrow> SystemExit 1 | Some entry \<Rightarrow> SystemExit 0))"
proof -
  from assms(1,2) have "\<not> arg_list a" by (rule get_arguments_given_title)
  with assms(2,3) have "retrieve w a enpass =
      ([GetEntry t (get_entry enpass t),
        (case get_entry enpass t of
           None \<Rightarrow>
             LoggerError (''No password entry found with title of \"'' @ t @ ''\".'')
         | Some entry \<Rightarrow> Print (password entry))],
       (case get_entry enpass t of None \<Rightarrow> SystemExit 1 | Some entry \<Rightarrow> SystemExit 0))"
    by (simp add: retrieve_def assign_entry_title_def lookup_entry_def not_found_message_def
        split: option.splits)
  with assms(1,4,5) show ?thesis by (simp add: main_def)
qed

lemma main_prompt_interrupted:
  assumes "get_arguments (environ w) (argv w) = Inr a"
    and "arg_search a \<or> arg_fuzzy a"
    and "setup_logging w (arg_log_level a) (arg_logger_config a) = (tr0, None)"
    and "EnpassDB w (arg_path a) (arg_password a) (arg_key_file a) = Inr enpass"
    and "prompt w ''Title :'' (prompt_completer a) = Inl KeyboardInterrupt"
  shows "main w =
           (tr0 @ [OpenDatabase (arg_path a) (arg_password a) (arg_key_file a) None,
                   PromptCall ''Title :'' (prompt_completer a) (Inl KeyboardInterrupt)],
            SystemExit 0)"
proof -
  from get_arguments_exclusive[OF assms(1)] assms(2)
  have "\<not> arg_list a" "\<not> truthy (arg_entry a)" by auto
  with assms(2,5) have "retrieve w a enpass =
      ([PromptCall ''Title :'' (prompt_completer a) (Inl KeyboardInterrupt)], SystemExit 0)"
    by (simp add: retrieve_def assign_entry_title_def)
  with assms(1,3,4) show ?thesis by (simp add: main_def)
qed

lemma main_missing_log_config:
  assumes "get_arguments (environ w) (argv w) = Inr a"
    and "arg_logger_config a \<noteq> []"
    and "read_file w (arg_logger_config a) = Inl FileNotFoundError"
  shows "main w = ([ReadFile (arg_logger_config a) (Inl FileNotFoundError)],
                   Uncaught FileNotFoundError)"
  using assms by (simp add: main_def setup_logging_def except_ValueError_def)

subsection \<open>The log level and the rest of the run\<close>

lemma take_action_log_level:
  "take_action f (a\<lparr>arg_log_level := l\<rparr>) = (take_action f a)\<lparr>arg_log_level := l\<rparr>"
  by (cases f) simp_all

lemma parse_group_log_level:
  "parse_group fs seen (a\<lparr>arg_log_level := l\<rparr>) =
     map_sum id (\<lambda>a. a\<lparr>arg_log_level := l\<rparr>) (parse_group fs seen a)"
proof (induction fs seen a rule: parse_group.induct)
  case (1 seen a)
  then show ?case by simp
next
  case (2 f fs seen a)
  then show ?case by (simp add: take_action_log_level)
qed

lemma get_arguments_log_level:
  assumes "l \<in> set log_level_choices"
  shows "get_arguments env (c\<lparr>opt_log_level := Some l\<rparr>) =
     map_sum id (\<lambda>a. a\<lparr>arg_log_level := l\<rparr>) (get_arguments env (c\<lparr>opt_log_level := None\<rparr>))"
proof -
  have upd: "\<And>lc p q k.
      \<lparr>arg_logger_config = lc, arg_log_level = l, arg_path = p, arg_password = q,
       arg_key_file = k, arg_entry = None, arg_list = False, arg_search = False,
       arg_fuzzy = False\<rparr> =
      \<lparr>arg_logger_config = lc, arg_log_level = ''info'', arg_path = p, arg_password = q,
       arg_key_file = k, arg_entry = None, arg_list = False, arg_search = False,
       arg_fuzzy = False\<rparr>\<lparr>arg_log_level := l\<rparr>"
    by simp
  show ?thesis
    using assms
    by (simp add: get_arguments_def parse_log_level_def split: sum.splits)
       (simp only: upd parse_group_log_level, simp)
qed

lemma get_arguments_logger_config:
  assumes "get_arguments env c = Inr a"
  shows "arg_logger_config a = (case opt_log_config c of Some v \<Rightarrow> v | None \<Rightarrow> [])"
proof -
  from assms obtain a0 where "parse_group (opt_group c) [] a0 = Inr a"
    "arg_logger_config a0 = (case opt_log_config c of Some v \<Rightarrow> v | None \<Rightarrow> [])"
    by (auto simp: get_arguments_def split: sum.splits)
  then show ?thesis using parse_group_fields by metis
qed

lemma assign_entry_title_log_level:
  "assign_entry_title w (a\<lparr>arg_log_level := l\<rparr>) = assign_entry_title w a"
  by (simp add: assign_entry_title_def prompt_completer_def)

lemma retrieve_log_level: "retrieve w (a\<lparr>arg_log_level := l\<rparr>) enpass = retrieve w a enpass"
  by (simp add: retrieve_def assign_entry_title_log_level split: prod.splits option.splits)

lemma assign_entry_title_argv:
  "assign_entry_title (w\<lparr>argv := c\<rparr>) a = assign_entry_title w a"
  by (simp add: assign_entry_title_def)

lemma retrieve_argv: "retrieve (w\<lparr>argv := c\<rparr>) a enpass = retrieve w a enpass"
  by (simp add: retrieve_def assign_entry_title_argv split: prod.splits option.splits)

lemma setup_logging_argv:
  "setup_logging (w\<lparr>argv := c\<rparr>) level config_file = setup_logging w level config_file"
  by (simp add: setup_logging_def split: sum.splits option.splits)

lemma setup_logging_level:
  "config_file \<noteq> [] \<Longrightarrow>
     setup_logging w level1 config_file = setup_logging w level2 config_file"
  by (simp add: setup_logging_def)

lemma main_with_log_level:
  assumes "opt_log_config (argv w) = Some config_file" and "config_file \<noteq> []"
    and "l \<in> set log_level_choices"
  shows "main (with_log_level l w) = main (w\<lparr>argv := (argv w)\<lparr>opt_log_level := None\<rparr>\<rparr>)"
proof (cases "get_arguments (environ w) ((argv w)\<lparr>opt_log_level := None\<rparr>)")
  case (Inl e)
  with assms(3) show ?thesis
    by (simp add: main_def with_log_level_def get_arguments_log_level)
next
  case (Inr a)
  then have "arg_logger_config a = config_file"
    using assms(1) by (simp add: get_arguments_logger_config)
  with Inr assms(2,3) show ?thesis
    using setup_logging_level[of config_file w l "arg_log_level a"]
    by (simp add: main_def with_log_level_def get_arguments_log_level
        setup_logging_argv retrieve_argv retrieve_log_level Let_def
        split: prod.splits option.splits sum.splits)
qed

subsection \<open>The database options and the environment\<close>

lemma DefaultVariable_init_environ:
  assumes "os_environ variable = Some v" and "variable \<noteq> []" and "\<not> truthy dflt"
  shows "DefaultVariable_init os_environ variable required dflt =
           \<lparr>action_default = Some v, action_required = (required \<and> v = [])\<rparr>"
  using assms by (auto simp: DefaultVariable_init_def)

lemma parse_DefaultVariable_given:
  "parse_DefaultVariable a (Some x) = Inr (Some x)"
  by (simp add: parse_DefaultVariable_def DefaultVariable_call_def)

lemma get_arguments_values:
  assumes "get_arguments os_environ c = Inr a"
  shows "parse_DefaultVariable (DefaultVariable_init os_environ ''ENPASS_DB_PATH'' True None)
           (opt_database_path c) = Inr (arg_path a)"
    and "parse_DefaultVariable (DefaultVariable_init os_environ ''ENPASS_DB_PASSWORD'' True None)
           (opt_database_password c) = Inr (arg_password a)"
    and "parse_DefaultVariable
           (DefaultVariable_init os_environ ''ENPASS_DB_KEY_FILE'' False (Some []))
           (opt_database_key_file c) = Inr (arg_key_file a)"
proof -
  from assms obtain l p q k where parts:
    "parse_DefaultVariable (DefaultVariable_init os_environ ''ENPASS_DB_PATH'' True None)
       (opt_database_path c) = Inr p"
    "parse_DefaultVariable (DefaultVariable_init os_environ ''ENPASS_DB_PASSWORD'' True None)
       (opt_database_password c) = Inr q"
    "parse_DefaultVariable
       (DefaultVariable_init os_environ ''ENPASS_DB_KEY_FILE'' False (Some []))
       (opt_database_key_file c) = Inr k"
    "parse_group (opt_group c) []
       \<lparr>arg_logger_config = (case opt_log_config c of Some v \<Rightarrow> v | None \<Rightarrow> []),
        arg_log_level = l, arg_path = p, arg_password = q, arg_key_file = k,
        arg_entry = None, arg_list = False, arg_search = False, arg_fuzzy = False\<rparr> = Inr a"
    by (auto simp: get_arguments_def split: sum.splits)
  from parse_group_fields[OF parts(4)] have "arg_path a = p" "arg_password a = q" "arg_key_file a = k"
    by simp_all
  with parts(1,2,3) show
    "parse_DefaultVariable (DefaultVariable_init os_environ ''ENPASS_DB_PATH'' True None)
           (opt_database_path c) = Inr (arg_path a)"
    "parse_DefaultVariable (DefaultVariable_init os_environ ''ENPASS_DB_PASSWORD'' True None)
           (opt_database_password c) = Inr (arg_password a)"
    "parse_DefaultVariable
           (DefaultVariable_init os_environ ''ENPASS_DB_KEY_FILE'' False (Some []))
           (opt_database_key_file c) = Inr (arg_key_file a)"
    by simp_all
qed

lemma absent_as_given:
  assumes "os_environ variable = Some v" and "variable \<noteq> []" and "\<not> truthy dflt"
    and "required \<longrightarrow> v \<noteq> []"
  shows "parse_DefaultVariable (DefaultVariable_init os_environ variable required dflt) None =
         parse_DefaultVariable (DefaultVariable_init os_environ variable required dflt) (Some v)"
  using assms
  by (auto simp: DefaultVariable_init_environ parse_DefaultVariable_def DefaultVariable_call_def)

lemma parse_DefaultVariable_value:
  assumes "parse_DefaultVariable (DefaultVariable_init os_environ variable required dflt) given =
             Inr val"
    and "variable \<noteq> []" and "\<not> truthy dflt"
  shows "(case given of
            Some x \<Rightarrow> val = Some x
          | None \<Rightarrow>
              val = (case os_environ variable of Some v \<Rightarrow> Some v | None \<Rightarrow> dflt) \<and>
              (required \<longrightarrow> truthy val))"
proof (cases given)
  case (Some x)
  with assms(1) have "val = Some x" by (simp add: parse_DefaultVariable_given)
  with Some show ?thesis by simp
next
  case None
  note absent = this
  show ?thesis
  proof (cases "os_environ variable")
    case None
    with absent assms show ?thesis
      by (simp add: parse_DefaultVariable_def DefaultVariable_init_def split: if_splits)
  next
    case (Some v)
    have init: "DefaultVariable_init os_environ variable required dflt =
        \<lparr>action_default = Some v, action_required = (required \<and> v = [])\<rparr>"
      using Some assms(2,3) by (rule DefaultVariable_init_environ)
    from assms(1) absent have "val = Some v" "required \<longrightarrow> v \<noteq> []"
      unfolding init by (auto simp: parse_DefaultVariable_def split: if_splits)
    with absent Some show ?thesis by simp
  qed
qed

lemma get_arguments_database_options:
  assumes "get_arguments os_environ c = Inr a"
  shows
    "(case opt_database_path c of
        Some x \<Rightarrow> arg_path a = Some x
      | None \<Rightarrow> arg_path a = os_environ ''ENPASS_DB_PATH'' \<and> truthy (arg_path a)) \<and>
     (case opt_database_password c of
        Some x \<Rightarrow> arg_password a = Some x
      | None \<Rightarrow> arg_password a = os_environ ''ENPASS_DB_PASSWORD'' \<and> truthy (arg_password a)) \<and>
     (case opt_database_key_file c of
        Some x \<Rightarrow> arg_key_file a = Some x
      | None \<Rightarrow>
          arg_key_file a =
            (case os_environ ''ENPASS_DB_KEY_FILE'' of Some v \<Rightarrow> Some v | None \<Rightarrow> Some []))"
proof -
  note parsed = get_arguments_values[OF assms]
  have path: "(case opt_database_path c of
        Some x \<Rightarrow> arg_path a = Some x
      | None \<Rightarrow> arg_path a = os_environ ''ENPASS_DB_PATH'' \<and> truthy (arg_path a))"
    using parse_DefaultVariable_value[OF parsed(1)]
    by (cases "os_environ ''ENPASS_DB_PATH''") (auto split: option.splits)
  have password: "(case opt_database_password c of
        Some x \<Rightarrow> arg_password a = Some x
      | None \<Rightarrow> arg_password a = os_environ ''ENPASS_DB_PASSWORD'' \<and> truthy (arg_password a))"
    using parse_DefaultVariable_value[OF parsed(2)]
    by (cases "os_environ ''ENPASS_DB_PASSWORD''") (auto split: option.splits)
  have key_file: "(case opt_database_key_file c of
        Some x \<Rightarrow> arg_key_file a = Some x
      | None \<Rightarrow>
          arg_key_file a =
            (case os_environ ''ENPASS_DB_KEY_FILE'' of Some v \<Rightarrow> Some v | None \<Rightarrow> Some []))"
    using parse_DefaultVariable_value[OF parsed(3)]
    by (simp split: option.splits)
  from path password key_file show ?thesis by blast
qed

lemma default_lifts_requirement:
  assumes "v \<noteq> []"
  shows "os_environ ''ENPASS_DB_PATH'' = Some v \<Longrightarrow>
           get_arguments os_environ (c\<lparr>opt_database_path := None\<rparr>) =
           get_arguments os_environ (c\<lparr>opt_database_path := Some v\<rparr>)"
    and "os_environ ''ENPASS_DB_PASSWORD'' = Some v \<Longrightarrow>
           get_arguments os_environ (c\<lparr>opt_database_password := None\<rparr>) =
           get_arguments os_environ (c\<lparr>opt_database_password := Some v\<rparr>)"
  using assms
  by (simp_all add: get_arguments_def absent_as_given cong: sum.case_cong)

lemma key_file_default_as_given:
  assumes "os_environ ''ENPASS_DB_KEY_FILE'' = Some v"
  shows "get_arguments os_environ (c\<lparr>opt_database_key_file := None\<rparr>) =
         get_arguments os_environ (c\<lparr>opt_database_key_file := Some v\<rparr>)"
  using assms
  by (simp add: get_arguments_def absent_as_given cong: sum.case_cong)

lemma empty_default_stays_required:
  assumes "os_environ ''ENPASS_DB_PATH'' = Some []" and "opt_database_path c = None"
  shows "get_arguments os_environ c = Inl (SystemExit 2)"
  using assms
  by (auto simp: get_arguments_def parse_log_level_def parse_DefaultVariable_def
      DefaultVariable_init_def split: sum.splits option.splits)

section \<open>The claims\<close>

text \<open>The definitions that a run in the concrete world unfolds.\<close>

lemmas run_defs =
  main_def get_arguments_def parse_log_level_def log_level_choices_def
  parse_DefaultVariable_def DefaultVariable_init_def DefaultVariable_call_def
  setup_logging_def except_ValueError_def upper_def upper_char_def
  retrieve_def assign_entry_title_def prompt_completer_def lookup_entry_def
  vault_world_def vault_def vault_entries_def vault_args_def

text \<open>
  Claim C1 does not hold of the code: \<^verbatim>\<open>raise SystemExit(0)\<close> stands in the body of the
  loop over the entries, so enumerate mode prints the line of the first entry and ends
  the run. Over the two entries of \<open>vault\<close>, the run prints one line.
\<close>

theorem enumerate_stops_after_first_entry:
  "entries vault =
     [\<lparr>title = ''mail'', password = ''hunter2''\<rparr>,
      \<lparr>title = ''bank'', password = ''s3cret''\<rparr>] \<and>
   main (vault_world [Enumerate]) =
     ([ColoredlogsInstall ''INFO'',
       OpenDatabase (Some ''/vault'') (Some ''master'') (Some []) None,
       Print ''mail: hunter2''], SystemExit 0) \<and>
   stdout (fst (main (vault_world [Enumerate]))) = [''mail: hunter2'']"
  by (simp add: run_defs)



text \<open>
  Claim C3 does not hold of the code at the empty title. \<^verbatim>\<open>if args.entry:\<close> tests the
  title's truthiness, so \<^verbatim>\<open>--get ''\<close> assigns no \<^verbatim>\<open>entry_title\<close>; the lookup is never
  made, nothing is logged, and the run ends in an uncaught \<open>UnboundLocalError\<close>, although
  \<open>vault\<close> holds no entry under that title. For every other title the code does what the
  claim says (\<open>main_given_title\<close>).
\<close>

theorem empty_title_not_reported:
  "get_entry vault [] = None \<and>
   get_arguments (environ (vault_world [Get []])) (argv (vault_world [Get []])) =
     Inr (vault_args (Some []) False False False) \<and>
   main (vault_world [Get []]) =
     ([ColoredlogsInstall ''INFO'',
       OpenDatabase (Some ''/vault'') (Some ''master'') (Some []) None],
      Uncaught UnboundLocalError) \<and>
   snd (main (vault_world [Get []])) \<noteq> SystemExit 1"
  by (simp add: run_defs)

text \<open>
  Claim C4 does not hold of the code at the empty title, by the same test: over a
  database whose lookup of the empty title answers an entry, \<^verbatim>\<open>--get ''\<close> prints nothing
  and ends in an uncaught \<open>UnboundLocalError\<close>. For every other title the code does what
  the claim says (\<open>main_given_title\<close>).
\<close>

theorem empty_title_entry_not_printed:
  "get_entry untitled_vault [] = Some \<lparr>title = [], password = ''blank''\<rparr> \<and>
   get_arguments (environ (untitled_vault_world [Get []]))
     (argv (untitled_vault_world [Get []])) =
     Inr (vault_args (Some []) False False False) \<and>
   main (untitled_vault_world [Get []]) =
     ([ColoredlogsInstall ''INFO'',
       OpenDatabase (Some ''/vault'') (Some ''master'') (Some []) None],
      Uncaught UnboundLocalError) \<and>
   stdout (fst (main (untitled_vault_world [Get []]))) = []"
  by (simp add: run_defs untitled_vault_world_def untitled_vault_def)

text \<open>
  Claim C5. A run in which the user interrupts the prompt (\<open>KeyboardInterrupt\<close>) ends with
  \<^verbatim>\<open>SystemExit(0)\<close>. Such a run is in search or fuzzy-search mode, the prompt is its last
  effect and it prints nothing.
\<close>

theorem prompt_interrupt_exits_0:
  assumes "main w = (tr, out)"
    and "PromptCall message c (Inl KeyboardInterrupt) \<in> set tr"
  shows "out = SystemExit 0 \<and>
         (\<exists>a tr0. get_arguments (environ w) (argv w) = Inr a \<and>
            (arg_search a \<or> arg_fuzzy a) \<and>
            tr = tr0 @ [PromptCall ''Title :'' (prompt_completer a) (Inl KeyboardInterrupt)]) \<and>
         stdout tr = []"
  using assms(1)
proof (cases rule: main_cases)
  case parse_error
  with assms(2) show ?thesis by simp
next
  case (logging_failed a')
  from logging_failed(2) have "list_all setup_event tr" by (rule setup_logging_events)
  with assms(2) show ?thesis using setup_event_not_mem(3) by blast
next
  case (open_failed a' tr0 exn)
  from open_failed(2) have "list_all logging_event tr0" by (rule setup_logging_returns)
  with assms(2) open_failed(5) show ?thesis using logging_event_not_mem(3) by auto
next
  case (database_error a' tr0)
  from database_error(2) have "list_all logging_event tr0" by (rule setup_logging_returns)
  with assms(2) database_error(4) show ?thesis using logging_event_not_mem(3) by auto
next
  case (opened a tr0 enpass tr1)
  from opened(2) have l: "list_all logging_event tr0" by (rule setup_logging_returns)
  with assms(2) opened(5) have mem: "PromptCall message c (Inl KeyboardInterrupt) \<in> set tr1"
    using logging_event_not_mem(3) by auto
  from opened(4) have "out = SystemExit 0 \<and> (arg_search a \<or> arg_fuzzy a) \<and>
      tr1 = [PromptCall ''Title :'' (prompt_completer a) (Inl KeyboardInterrupt)]"
  proof (cases rule: retrieve_cases)
    case (enumerated e rest)
    with mem show ?thesis by simp
  next
    case unassigned
    with mem show ?thesis by simp
  next
    case (prompt_raised exn)
    with mem show ?thesis by simp
  next
    case (given_title t')
    with mem show ?thesis by (auto simp: lookup_entry_def split: option.splits)
  next
    case (prompted_title t')
    with mem show ?thesis by (auto simp: lookup_entry_def split: option.splits)
  qed
  with opened(1,5) l show ?thesis
    by (simp add: stdout_append logging_event_quiet)
qed

theorem prompt_interrupt_exits_0_witness:
  "main (vault_world [FuzzySearch]) =
     ([ColoredlogsInstall ''INFO'',
       OpenDatabase (Some ''/vault'') (Some ''master'') (Some []) None,
       PromptCall ''Title :'' (FuzzyCompleter EnpassCompleter) (Inl KeyboardInterrupt)],
      SystemExit 0) \<and>
   get_arguments (environ (vault_world [FuzzySearch])) (argv (vault_world [FuzzySearch])) =
     Inr (vault_args None False False True) \<and>
   stdout (fst (main (vault_world [FuzzySearch]))) = []"
proof -
  have run: "main (vault_world [FuzzySearch]) =
     ([ColoredlogsInstall ''INFO'',
       OpenDatabase (Some ''/vault'') (Some ''master'') (Some []) None,
       PromptCall ''Title :'' (FuzzyCompleter EnpassCompleter) (Inl KeyboardInterrupt)],
      SystemExit 0)"
    by (simp add: run_defs)
  have interrupted:
    "PromptCall ''Title :'' (FuzzyCompleter EnpassCompleter) (Inl KeyboardInterrupt) \<in>
       set [ColoredlogsInstall ''INFO'',
            OpenDatabase (Some ''/vault'') (Some ''master'') (Some []) None,
            PromptCall ''Title :'' (FuzzyCompleter EnpassCompleter) (Inl KeyboardInterrupt)]"
    by simp
  have parsed:
    "get_arguments (environ (vault_world [FuzzySearch])) (argv (vault_world [FuzzySearch])) =
       Inr (vault_args None False False True)"
    by (simp add: run_defs)
  from prompt_interrupt_exits_0 [OF run interrupted] run parsed show ?thesis
    by simp
qed

text \<open>
  Claim C6. When the log configuration file named on the command line can be read and its
  contents are not valid JSON (\<^verbatim>\<open>json.loads\<close> raises \<open>JSONDecodeError\<close>),
  \<^verbatim>\<open>setup_logging\<close> prints the message, which quotes the path given, and ends the run with
  \<^verbatim>\<open>SystemExit(1)\<close>; reading the file and printing the message are all the run does, so
  the database is never opened.
\<close>

theorem invalid_json_exits_1:
  assumes "get_arguments (environ w) (argv w) = Inr a"
    and "arg_logger_config a = config_file"
    and "config_file \<noteq> []"
    and "read_file w config_file = Inr contents"
    and "json_loads w contents = Inl JSONDecodeError"
  shows "setup_logging w (arg_log_level a) config_file =
           ([ReadFile config_file (Inr contents),
             Print (''File \"'' @ config_file @ ''\" is not valid json, cannot continue.'')],
            Some (SystemExit 1)) \<and>
         main w =
           ([ReadFile config_file (Inr contents),
             Print (''File \"'' @ config_file @ ''\" is not valid json, cannot continue.'')],
            SystemExit 1) \<and>
         \<not> list_ex is_OpenDatabase (fst (main w))"
proof -
  from assms(3,4,5) have s: "setup_logging w (arg_log_level a) config_file =
      ([ReadFile config_file (Inr contents),
        Print (''File \"'' @ config_file @ ''\" is not valid json, cannot continue.'')],
       Some (SystemExit 1))"
    by (simp add: setup_logging_def except_ValueError_def invalid_json_message_def)
  with assms(1,2) have "main w =
      ([ReadFile config_file (Inr contents),
        Print (''File \"'' @ config_file @ ''\" is not valid json, cannot continue.'')],
       SystemExit 1)"
    by (simp add: main_def)
  with s show ?thesis by simp
qed

theorem invalid_json_exits_1_witness:
  "get_arguments (environ (with_log_config ''bad.json'' (vault_world [Enumerate])))
     (argv (with_log_config ''bad.json'' (vault_world [Enumerate]))) =
     Inr ((vault_args None True False False)\<lparr>arg_logger_config := ''bad.json''\<rparr>) \<and>
   read_file (with_log_config ''bad.json'' (vault_world [Enumerate])) ''bad.json'' = Inr ''{'' \<and>
   json_loads (with_log_config ''bad.json'' (vault_world [Enumerate])) ''{'' =
     Inl JSONDecodeError \<and>
   main (with_log_config ''bad.json'' (vault_world [Enumerate])) =
     ([ReadFile ''bad.json'' (Inr ''{''),
       Print ''File \"bad.json\" is not valid json, cannot continue.''],
      SystemExit 1)"
proof -
  have parsed:
    "get_arguments (environ (with_log_config ''bad.json'' (vault_world [Enumerate])))
       (argv (with_log_config ''bad.json'' (vault_world [Enumerate]))) =
       Inr ((vault_args None True False False)\<lparr>arg_logger_config := ''bad.json''\<rparr>)"
    by (simp add: run_defs with_log_config_def)
  have given:
    "arg_logger_config ((vault_args None True False False)\<lparr>arg_logger_config := ''bad.json''\<rparr>) =
       ''bad.json''"
    by simp
  have named: "''bad.json'' \<noteq> []"
    by simp
  have contents:
    "read_file (with_log_config ''bad.json'' (vault_world [Enumerate])) ''bad.json'' = Inr ''{''"
    by (simp add: run_defs with_log_config_def)
  have invalid:
    "json_loads (with_log_config ''bad.json'' (vault_world [Enumerate])) ''{'' =
       Inl JSONDecodeError"
    by (simp add: run_defs with_log_config_def)
  from invalid_json_exits_1 [OF parsed given named contents invalid] parsed contents invalid
  show ?thesis
    by simp
qed

text \<open>
  Claim C7. For \<^verbatim>\<open>--database-path\<close>, \<^verbatim>\<open>--database-password\<close> and \<^verbatim>\<open>--database-key-file\<close>:
  whenever the arguments parse, a flag given on the command line has the value given,
  whatever the environment holds, and an absent flag has the value of its environment
  variable (the key file, which also declares \<^verbatim>\<open>default=''\<close>, has \<^verbatim>\<open>''\<close> when the
  variable is unset). When the variable holds a default the code can use, that is a
  non-empty string, the option is no longer required, and parsing without the flag is
  parsing with the flag set to that value. The code tests the default's truthiness, so
  a variable set to the empty string gives the required options no default.
\<close>

theorem environment_defaults:
  "(get_arguments os_environ c = Inr a \<longrightarrow>
      (case opt_database_path c of
         Some x \<Rightarrow> arg_path a = Some x
       | None \<Rightarrow> arg_path a = os_environ ''ENPASS_DB_PATH'' \<and> truthy (arg_path a)) \<and>
      (case opt_database_password c of
         Some x \<Rightarrow> arg_password a = Some x
       | None \<Rightarrow>
           arg_password a = os_environ ''ENPASS_DB_PASSWORD'' \<and> truthy (arg_password a)) \<and>
      (case opt_database_key_file c of
         Some x \<Rightarrow> arg_key_file a = Some x
       | None \<Rightarrow>
           arg_key_file a =
             (case os_environ ''ENPASS_DB_KEY_FILE'' of
                Some v \<Rightarrow> Some v
              | None \<Rightarrow> Some []))) \<and>
   (os_environ ''ENPASS_DB_PATH'' = Some v \<and> v \<noteq> [] \<longrightarrow>
      DefaultVariable_init os_environ ''ENPASS_DB_PATH'' True None =
        \<lparr>action_default = Some v, action_required = False\<rparr> \<and>
      get_arguments os_environ (c\<lparr>opt_database_path := None\<rparr>) =
        get_arguments os_environ (c\<lparr>opt_database_path := Some v\<rparr>)) \<and>
   (os_environ ''ENPASS_DB_PASSWORD'' = Some v \<and> v \<noteq> [] \<longrightarrow>
      DefaultVariable_init os_environ ''ENPASS_DB_PASSWORD'' True None =
        \<lparr>action_default = Some v, action_required = False\<rparr> \<and>
      get_arguments os_environ (c\<lparr>opt_database_password := None\<rparr>) =
        get_arguments os_environ (c\<lparr>opt_database_password := Some v\<rparr>)) \<and>
   (os_environ ''ENPASS_DB_KEY_FILE'' = Some v \<longrightarrow>
      DefaultVariable_init os_environ ''ENPASS_DB_KEY_FILE'' False (Some []) =
        \<lparr>action_default = Some v, action_required = False\<rparr> \<and>
      get_arguments os_environ (c\<lparr>opt_database_key_file := None\<rparr>) =
        get_arguments os_environ (c\<lparr>opt_database_key_file := Some v\<rparr>))"
proof -
  have parsed: "get_arguments os_environ c = Inr a \<longrightarrow>
      (case opt_database_path c of
         Some x \<Rightarrow> arg_path a = Some x
       | None \<Rightarrow> arg_path a = os_environ ''ENPASS_DB_PATH'' \<and> truthy (arg_path a)) \<and>
      (case opt_database_password c of
         Some x \<Rightarrow> arg_password a = Some x
       | None \<Rightarrow>
           arg_password a = os_environ ''ENPASS_DB_PASSWORD'' \<and> truthy (arg_password a)) \<and>
      (case opt_database_key_file c of
         Some x \<Rightarrow> arg_key_file a = Some x
       | None \<Rightarrow>
           arg_key_file a =
             (case os_environ ''ENPASS_DB_KEY_FILE'' of
                Some v \<Rightarrow> Some v
              | None \<Rightarrow> Some []))"
    using get_arguments_database_options by blast
  have path: "os_environ ''ENPASS_DB_PATH'' = Some v \<and> v \<noteq> [] \<longrightarrow>
      DefaultVariable_init os_environ ''ENPASS_DB_PATH'' True None =
        \<lparr>action_default = Some v, action_required = False\<rparr> \<and>
      get_arguments os_environ (c\<lparr>opt_database_path := None\<rparr>) =
        get_arguments os_environ (c\<lparr>opt_database_path := Some v\<rparr>)"
    by (simp add: DefaultVariable_init_environ default_lifts_requirement(1))
  have password: "os_environ ''ENPASS_DB_PASSWORD'' = Some v \<and> v \<noteq> [] \<longrightarrow>
      DefaultVariable_init os_environ ''ENPASS_DB_PASSWORD'' True None =
        \<lparr>action_default = Some v, action_required = False\<rparr> \<and>
      get_arguments os_environ (c\<lparr>opt_database_password := None\<rparr>) =
        get_arguments os_environ (c\<lparr>opt_database_password := Some v\<rparr>)"
    by (simp add: DefaultVariable_init_environ default_lifts_requirement(2))
  have key_file: "os_environ ''ENPASS_DB_KEY_FILE'' = Some v \<longrightarrow>
      DefaultVariable_init os_environ ''ENPASS_DB_KEY_FILE'' False (Some []) =
        \<lparr>action_default = Some v, action_required = False\<rparr> \<and>
      get_arguments os_environ (c\<lparr>opt_database_key_file := None\<rparr>) =
        get_arguments os_environ (c\<lparr>opt_database_key_file := Some v\<rparr>)"
    by (simp add: DefaultVariable_init_environ key_file_default_as_given)
  from parsed path password key_file show ?thesis
    by blast
qed

theorem environment_defaults_witness:
  "get_arguments vault_environ bare_cmdline = Inr (vault_args None True False False) \<and>
   opt_database_path bare_cmdline = None \<and>
   vault_environ ''ENPASS_DB_PATH'' = Some ''/vault'' \<and>
   arg_path (vault_args None True False False) = Some ''/vault'' \<and>
   get_arguments vault_environ (bare_cmdline\<lparr>opt_database_path := None\<rparr>) =
     get_arguments vault_environ (bare_cmdline\<lparr>opt_database_path := Some ''/vault''\<rparr>) \<and>
   get_arguments vault_environ (bare_cmdline\<lparr>opt_database_path := Some ''/other''\<rparr>) =
     Inr ((vault_args None True False False)\<lparr>arg_path := Some ''/other''\<rparr>)"
proof -
  have parsed:
    "get_arguments vault_environ bare_cmdline = Inr (vault_args None True False False)"
    by (simp add: run_defs vault_environ_def bare_cmdline_def)
  have absent: "opt_database_path bare_cmdline = None"
    by (simp add: bare_cmdline_def)
  have held: "vault_environ ''ENPASS_DB_PATH'' = Some ''/vault'' \<and> ''/vault'' \<noteq> []"
    by (simp add: vault_environ_def)
  have given:
    "get_arguments vault_environ (bare_cmdline\<lparr>opt_database_path := Some ''/other''\<rparr>) =
       Inr ((vault_args None True False False)\<lparr>arg_path := Some ''/other''\<rparr>)"
    by (simp add: run_defs vault_environ_def bare_cmdline_def)
  from environment_defaults
         [of vault_environ bare_cmdline "vault_args None True False False" "''/vault''"]
       parsed absent held given
  show ?thesis
    by simp
qed

text \<open>
  Claim C8. When the database is open and no title is ever assigned (enumerate mode over a
  database without entries, or direct-get mode with the empty string as title), the
  local \<^verbatim>\<open>entry_title\<close> is left unassigned and the run ends in an uncaught
  \<open>UnboundLocalError\<close>, not in a \<^verbatim>\<open>SystemExit\<close>; no lookup is made.
\<close>

theorem entry_title_unassigned:
  assumes "get_arguments (environ w) (argv w) = Inr a"
    and "setup_logging w (arg_log_level a) (arg_logger_config a) = (tr0, None)"
    and "EnpassDB w (arg_path a) (arg_password a) (arg_key_file a) = Inr enpass"
    and "arg_list a \<and> entries enpass = [] \<or> arg_entry a = Some []"
  shows "assign_entry_title w a = ([], Inr None) \<and>
         main w =
           (tr0 @ [OpenDatabase (arg_path a) (arg_password a) (arg_key_file a) None],
            Uncaught UnboundLocalError)"
proof -
  from assms(4) have flags:
    "\<not> truthy (arg_entry a)" "\<not> arg_search a" "\<not> arg_fuzzy a"
    "arg_list a \<longrightarrow> entries enpass = []"
    using get_arguments_enumerate[OF assms(1)] get_arguments_given_title[OF assms(1)]
    by auto
  then have unassigned: "assign_entry_title w a = ([], Inr None)"
    by (simp add: assign_entry_title_def)
  with flags(4) have "retrieve w a enpass = ([], Uncaught UnboundLocalError)"
    by (simp add: retrieve_def lookup_entry_def)
  with assms(1,2,3) unassigned show ?thesis
    by (simp add: main_def)
qed

theorem entry_title_unassigned_witness:
  "main (vault_world [Get []]) =
     ([ColoredlogsInstall ''INFO'',
       OpenDatabase (Some ''/vault'') (Some ''master'') (Some []) None],
      Uncaught UnboundLocalError) \<and>
   main (empty_vault_world [Enumerate]) =
     ([ColoredlogsInstall ''INFO'',
       OpenDatabase (Some ''/vault'') (Some ''master'') (Some []) None],
      Uncaught UnboundLocalError)"
proof -
  have parsed:
    "get_arguments (environ (vault_world [Get []])) (argv (vault_world [Get []])) =
       Inr (vault_args (Some []) False False False)"
    by (simp add: run_defs)
  have logging:
    "setup_logging (vault_world [Get []])
       (arg_log_level (vault_args (Some []) False False False))
       (arg_logger_config (vault_args (Some []) False False False)) =
     ([ColoredlogsInstall ''INFO''], None)"
    by (simp add: run_defs)
  have opened:
    "EnpassDB (vault_world [Get []])
       (arg_path (vault_args (Some []) False False False))
       (arg_password (vault_args (Some []) False False False))
       (arg_key_file (vault_args (Some []) False False False)) = Inr vault"
    by (simp add: run_defs)
  have empty_title:
    "arg_list (vault_args (Some []) False False False) \<and> entries vault = [] \<or>
     arg_entry (vault_args (Some []) False False False) = Some []"
    by (simp add: vault_args_def)
  have parsed':
    "get_arguments (environ (empty_vault_world [Enumerate]))
       (argv (empty_vault_world [Enumerate])) =
       Inr (vault_args None True False False)"
    by (simp add: run_defs empty_vault_world_def)
  have logging':
    "setup_logging (empty_vault_world [Enumerate])
       (arg_log_level (vault_args None True False False))
       (arg_logger_config (vault_args None True False False)) =
     ([ColoredlogsInstall ''INFO''], None)"
    by (simp add: run_defs empty_vault_world_def)
  have opened':
    "EnpassDB (empty_vault_world [Enumerate])
       (arg_path (vault_args None True False False))
       (arg_password (vault_args None True False False))
       (arg_key_file (vault_args None True False False)) = Inr (vault\<lparr>entries := []\<rparr>)"
    by (simp add: run_defs empty_vault_world_def)
  have no_entries:
    "arg_list (vault_args None True False False) \<and> entries (vault\<lparr>entries := []\<rparr>) = [] \<or>
     arg_entry (vault_args None True False False) = Some []"
    by (simp add: vault_args_def)
  from entry_title_unassigned [OF parsed logging opened empty_title]
    entry_title_unassigned [OF parsed' logging' opened' no_entries]
  show ?thesis
    by (simp add: vault_args_def)
qed

text \<open>
  Claim C9. When a log configuration file is named and no file is at that path,
  \<^verbatim>\<open>setup_logging\<close> does not end in \<^verbatim>\<open>SystemExit(1)\<close>: \<open>FileNotFoundError\<close> is not a
  \<open>ValueError\<close>, so the handler lets it through, and nothing is printed.
\<close>

theorem missing_log_config_propagates:
  assumes "config_file \<noteq> []"
    and "read_file w config_file = Inl FileNotFoundError"
  shows "setup_logging w level config_file =
           ([ReadFile config_file (Inl FileNotFoundError)], Some (Uncaught FileNotFoundError)) \<and>
         snd (setup_logging w level config_file) \<noteq> Some (SystemExit 1) \<and>
         stdout (fst (setup_logging w level config_file)) = []"
  using assms by (simp add: setup_logging_def except_ValueError_def)

theorem missing_log_config_propagates_witness:
  "read_file (vault_world [Enumerate]) ''missing.json'' = Inl FileNotFoundError \<and>
   setup_logging (vault_world [Enumerate]) ''info'' ''missing.json'' =
     ([ReadFile ''missing.json'' (Inl FileNotFoundError)], Some (Uncaught FileNotFoundError))"
proof -
  have named: "''missing.json'' \<noteq> []"
    by simp
  have absent: "read_file (vault_world [Enumerate]) ''missing.json'' = Inl FileNotFoundError"
    by (simp add: vault_world_def)
  from missing_log_config_propagates [OF named absent, of "''info''"] absent show ?thesis
    by simp
qed

text \<open>
  Claim C10. With a non-empty log configuration path, \<^verbatim>\<open>setup_logging\<close> does the same
  for any two levels, and two runs that differ in the value of \<^verbatim>\<open>--log-level\<close> only
  (both among the parser's choices) are the same run.
\<close>

theorem log_level_ignored_with_config:
  assumes "config_file \<noteq> []"
  shows "setup_logging w level1 config_file = setup_logging w level2 config_file \<and>
         (opt_log_config (argv w) = Some config_file \<and>
          level1 \<in> set log_level_choices \<and> level2 \<in> set log_level_choices \<longrightarrow>
          main (with_log_level level1 w) = main (with_log_level level2 w))"
  using assms main_with_log_level[of w config_file level1]
    main_with_log_level[of w config_file level2]
  by (simp add: setup_logging_def)

theorem log_level_ignored_with_config_witness:
  "setup_logging (vault_world [Enumerate]) ''debug'' ''bad.json'' =
     setup_logging (vault_world [Enumerate]) ''critical'' ''bad.json'' \<and>
   main (with_log_level ''debug'' (with_log_config ''bad.json'' (vault_world [Enumerate]))) =
     main (with_log_level ''critical'' (with_log_config ''bad.json'' (vault_world [Enumerate]))) \<and>
   setup_logging (vault_world [Enumerate]) ''debug'' [] \<noteq>
     setup_logging (vault_world [Enumerate]) ''critical'' []"
proof -
  have named: "''bad.json'' \<noteq> []"
    by simp
  have given:
    "opt_log_config (argv (with_log_config ''bad.json'' (vault_world [Enumerate]))) =
       Some ''bad.json''"
    by (simp add: with_log_config_def vault_world_def)
  have choices: "''debug'' \<in> set log_level_choices" "''critical'' \<in> set log_level_choices"
    by (simp_all add: log_level_choices_def)
  have levels: "setup_logging (vault_world [Enumerate]) ''debug'' [] \<noteq>
     setup_logging (vault_world [Enumerate]) ''critical'' []"
    by (simp add: setup_logging_def upper_def upper_char_def)
  from log_level_ignored_with_config
         [OF named, of "vault_world [Enumerate]" "''debug''" "''critical''"]
       log_level_ignored_with_config
         [OF named, of "with_log_config ''bad.json'' (vault_world [Enumerate])"
            "''debug''" "''critical''"]
       given choices levels
  show ?thesis
    by simp
qed

end
